theory Spec2Isabelle
  imports Complex_Main "HOL-Library.Log_Nat"
begin

section \<open>Log extraction by date: \<open>src/extract_logs.py\<close>\<close>

text \<open>
  The program reads a log file, infers the range of dates it holds from its first line and
  a window at its end, estimates where a target date lies, cuts the file into byte ranges,
  scans every range for the lines of the target date and writes them, normalised, to an
  output file. This theory embeds its functions, one HOL definition for each Python
  function, and proves what they compute.

  Conventions of the embedding.
  \<^item> Python \<open>str\<close> and \<open>bytes\<close> are both \<open>string\<close> (a list of \<open>char\<close>). A \<open>char\<close> of a
    text is the code point of that number, so texts are those over the code points below
    256, which covers the ASCII log format the program is written for.
  \<^item> Python \<open>int\<close> is \<open>int\<close>; a Python \<open>float\<close> is the real number it denotes, every
    operation rounding to IEEE 754 binary64 (\<open>to_double\<close>).
  \<^item> An exception is a value: a function that can raise returns \<open>exn + 'a\<close>, with \<open>Inl\<close>
    for the exception. A \<open>try\<close>/\<open>except\<close> of the source is a case distinction on it.
  \<^item> A loop that may run forever is a \<open>partial_function\<close> in the option monad: \<open>None\<close>
    is \<^emph>\<open>does not return\<close>.
  \<^item> Two functions of the standard library are parameters (\<open>pylib\<close>): the UTF-8 decoder
    and the date parser. What is proved for all libraries holds for CPython's.
\<close>

subsection \<open>Exceptions\<close>

datatype exn = IndexError | ValueError | OverflowError | ZeroDivisionError | OSError

definition exn_bind :: "exn + 'a \<Rightarrow> ('a \<Rightarrow> exn + 'b) \<Rightarrow> exn + 'b" where
  "exn_bind m f = (case m of Inl e \<Rightarrow> Inl e | Inr v \<Rightarrow> f v)"

text \<open>\<open>xs[i]\<close> for a literal index \<open>i \<ge> 0\<close>: IndexError out of range.\<close>

definition getitem :: "'a list \<Rightarrow> nat \<Rightarrow> exn + 'a" where
  "getitem xs i = (if i < length xs then Inr (xs ! i) else Inl IndexError)"

subsection \<open>String methods of the standard library\<close>

text \<open>
  \<open>py_find sep s\<close> is \<open>s.partition(sep)\<close> where the separator occurs: the text before its
  first occurrence and the text after it. The separators of the program are the
  non-empty literals \<open>'T'\<close>, \<open>' - '\<close> and \<open>'.0000'\<close>.
\<close>

fun py_find :: "string \<Rightarrow> string \<Rightarrow> (string \<times> string) option" where
  "py_find sep [] = None"
| "py_find sep (c # cs) =
     (if take (length sep) (c # cs) = sep then Some ([], drop (length sep) (c # cs))
      else (case py_find sep cs of None \<Rightarrow> None | Some (a, b) \<Rightarrow> Some (c # a, b)))"

text \<open>\<open>s.split(sep, n)\<close>: at most \<open>n\<close> splits, from the left, at non-overlapping occurrences.\<close>

fun py_split_max :: "string \<Rightarrow> nat \<Rightarrow> string \<Rightarrow> string list" where
  "py_split_max sep 0 s = [s]"
| "py_split_max sep (Suc n) s =
     (case py_find sep s of None \<Rightarrow> [s] | Some (a, b) \<Rightarrow> a # py_split_max sep n b)"

text \<open>
  \<open>s.split(sep)\<close>, with no bound: a split consumes at least one character, so there are at
  most \<open>length s\<close> of them.
\<close>

definition py_split :: "string \<Rightarrow> string \<Rightarrow> string list" where
  "py_split sep s = py_split_max sep (length s) s"

text \<open>\<open>sub in s\<close>.\<close>

definition py_contains :: "string \<Rightarrow> string \<Rightarrow> bool" where
  "py_contains sub s = (sub = [] \<or> py_find sub s \<noteq> None)"

text \<open>\<open>s.replace(old, new)\<close> for a non-empty \<open>old\<close>: every occurrence, from the left.\<close>

function py_replace :: "string \<Rightarrow> string \<Rightarrow> string \<Rightarrow> string" where
  "py_replace old new [] = []"
| "py_replace old new (c # cs) =
     (if old \<noteq> [] \<and> take (length old) (c # cs) = old
      then new @ py_replace old new (drop (length old) (c # cs))
      else c # py_replace old new cs)"
  by pat_completeness auto
termination
  by (relation "measure (\<lambda>(old, new, s). length s)") (auto simp: neq_Nil_conv)

text \<open>
  \<open>s.strip()\<close>: the white space of \<open>str.isspace\<close> among the code points below 256 goes
  from both ends.
\<close>

definition isspace :: "char \<Rightarrow> bool" where
  "isspace c = (c \<in> set [CHR 0x09, CHR 0x0A, CHR 0x0B, CHR 0x0C, CHR 0x0D, CHR 0x1C,
     CHR 0x1D, CHR 0x1E, CHR 0x1F, CHR 0x20, CHR 0x85, CHR 0xA0])"

definition py_strip :: "string \<Rightarrow> string" where
  "py_strip s = rev (dropWhile isspace (rev (dropWhile isspace s)))"

subsection \<open>Date Extractor: \<open>extract_date_from_line\<close>\<close>

text \<open>
  \<^verbatim>\<open>
  if not line: return "0000-00-00"
  if len(line) >= 10 and line[4] == '-' and line[7] == '-':
      if 'T' in line[:19]: return line.split('T')[0]
      else: return line[:10]
  return "0000-00-00"
  \<close>
  The conjunction is evaluated from the left and stops at the first false operand; an
  index out of range would raise.
\<close>

definition extract_date_from_line :: "string \<Rightarrow> exn + string" where
  "extract_date_from_line line =
     (if line = [] then Inr ''0000-00-00''
      else exn_bind
        (if \<not> 10 \<le> length line then Inr False
         else exn_bind (getitem line 4) (\<lambda>c4.
           if c4 \<noteq> CHR ''-'' then Inr False
           else exn_bind (getitem line 7) (\<lambda>c7. Inr (c7 = CHR ''-''))))
        (\<lambda>shaped.
           if shaped then
             (if py_contains ''T'' (take 19 line) then getitem (py_split ''T'' line) 0
              else Inr (take 10 line))
           else Inr ''0000-00-00''))"

subsection \<open>Line Normalizer: \<open>format_line_for_output\<close>\<close>

text \<open>
  \<^verbatim>\<open>
  if 'T' in line:
      parts = line.split(' - ', 2)
      if len(parts) >= 3:
          timestamp = parts[0].replace('T', ' ')
          if '.0000' in timestamp:
              timestamp = timestamp.replace('.0000', '')
          return f"{timestamp} {parts[1]} {parts[2]}"
  return line
  \<close>
\<close>

definition format_line_for_output :: "string \<Rightarrow> exn + string" where
  "format_line_for_output line =
     (if py_contains ''T'' line then
        (let parts = py_split_max '' - '' 2 line in
         if 3 \<le> length parts then
           exn_bind (getitem parts 0) (\<lambda>p0.
             let timestamp = py_replace ''T'' '' '' p0;
                 timestamp = (if py_contains ''.0000'' timestamp
                              then py_replace ''.0000'' [] timestamp else timestamp)
             in exn_bind (getitem parts 1) (\<lambda>p1.
                exn_bind (getitem parts 2) (\<lambda>p2.
                  Inr (timestamp @ '' '' @ p1 @ '' '' @ p2))))
         else Inr line)
      else Inr line)"

subsection \<open>The standard library the program calls\<close>

text \<open>
  \<^item> \<open>decode\<close> is \<open>bytes.decode('utf-8', errors='ignore')\<close>: it never raises.
  \<^item> \<open>strptime\<close> is \<open>datetime.datetime.strptime(s, '%Y-%m-%d')\<close>, the date as its
    proleptic Gregorian ordinal (the day number of \<open>date.toordinal\<close>), \<open>None\<close> where it
    raises ValueError. The program only subtracts two such dates and reads \<open>.days\<close>,
    which is the difference of the ordinals.
\<close>

record pylib =
  decode :: "string \<Rightarrow> string"
  strptime :: "string \<Rightarrow> int option"

definition py_strptime :: "pylib \<Rightarrow> string \<Rightarrow> exn + int" where
  "py_strptime L s = (case strptime L s of None \<Rightarrow> Inl ValueError | Some d \<Rightarrow> Inr d)"

text \<open>
  A library for concrete runs. On ASCII bytes the UTF-8 decoder is the identity, which is
  all \<open>decode_ascii\<close> is used for. \<open>strptime_iso\<close> reads the zero-padded form
  \<open>YYYY-MM-DD\<close> of a date that exists, with the calendar arithmetic of \<open>datetime\<close>
  (\<open>_days_before_year\<close>, \<open>_days_in_month\<close>, \<open>_ymd2ord\<close>); CPython accepts a few more
  spellings (a month or a day of one digit), which no example uses.
\<close>

definition decode_ascii :: "string \<Rightarrow> string" where
  "decode_ascii bs = filter (\<lambda>c. (of_char c :: nat) < 128) bs"

definition digit :: "char \<Rightarrow> int option" where
  "digit c = (let n = of_char c :: nat in if 48 \<le> n \<and> n \<le> 57 then Some (int n - 48) else None)"

definition is_leap :: "int \<Rightarrow> bool" where
  "is_leap y = (y mod 4 = 0 \<and> (y mod 400 = 0 \<or> y mod 100 \<noteq> 0))"

definition days_in_month :: "int \<Rightarrow> int \<Rightarrow> int" where
  "days_in_month y m =
     (if m = 2 then (if is_leap y then 29 else 28)
      else if m = 4 \<or> m = 6 \<or> m = 9 \<or> m = 11 then 30 else 31)"

definition days_before_year :: "int \<Rightarrow> int" where
  "days_before_year y = (y - 1) * 365 + (y - 1) div 4 - (y - 1) div 100 + (y - 1) div 400"

definition days_before_month :: "int \<Rightarrow> int \<Rightarrow> int" where
  "days_before_month y m = sum_list (map (days_in_month y) [1..m - 1])"

definition ymd2ord :: "int \<Rightarrow> int \<Rightarrow> int \<Rightarrow> int" where
  "ymd2ord y m d = days_before_year y + days_before_month y m + d"

definition strptime_iso :: "string \<Rightarrow> int option" where
  "strptime_iso s =
     (case s of
        [y1, y2, y3, y4, h1, m1, m2, h2, d1, d2] \<Rightarrow>
          (case (digit y1, digit y2, digit y3, digit y4, digit m1, digit m2, digit d1, digit d2) of
             (Some a, Some b, Some c, Some d, Some e, Some f, Some g, Some h) \<Rightarrow>
               (let y = 1000 * a + 100 * b + 10 * c + d; m = 10 * e + f; dd = 10 * g + h
                in if h1 = CHR ''-'' \<and> h2 = CHR ''-'' \<and> 1 \<le> y \<and> 1 \<le> m \<and> m \<le> 12
                      \<and> 1 \<le> dd \<and> dd \<le> days_in_month y m
                   then Some (ymd2ord y m dd) else None)
           | _ \<Rightarrow> None)
      | _ \<Rightarrow> None)"

definition cpython :: pylib where
  "cpython = \<lparr>decode = decode_ascii, strptime = strptime_iso\<rparr>"

subsection \<open>Files\<close>

text \<open>
  A file is its bytes; a read position is a number of bytes. \<open>readline\<close> (of a binary
  file and of an \<open>mmap\<close> alike) returns the bytes from the position up to and with the next
  newline, or up to the end of the file, and moves the position behind them. At or
  behind the end of the file it returns \<open>b''\<close> and the position stays.
\<close>

fun take_line :: "string \<Rightarrow> string" where
  "take_line [] = []"
| "take_line (c # cs) = (if c = CHR 0x0A then [c] else c # take_line cs)"

definition readline :: "string \<Rightarrow> nat \<Rightarrow> string \<times> nat" where
  "readline data pos = (let line = take_line (drop pos data) in (line, pos + length line))"

text \<open>The file of some lines, each ended by a newline: the input of the concrete runs.\<close>

definition file_of_lines :: "string list \<Rightarrow> string" where
  "file_of_lines ls = concat (map (\<lambda>l. l @ [CHR 0x0A]) ls)"

subsection \<open>Boundary Detector: \<open>find_date_boundaries\<close>\<close>

text \<open>
  \<^verbatim>\<open>
  last_date = "9999-99-99"
  for _ in range(100):
      line = mm.readline().decode('utf-8', errors='ignore').strip()
      if not line: break
      date = extract_date_from_line(line)
      if date: last_date = date
  \<close>
  \<open>tail_scan L mm k pos last_date\<close> is the loop with \<open>k\<close> rounds left.
\<close>

fun tail_scan :: "pylib \<Rightarrow> string \<Rightarrow> nat \<Rightarrow> nat \<Rightarrow> string \<Rightarrow> exn + string" where
  "tail_scan L mm 0 pos last_date = Inr last_date"
| "tail_scan L mm (Suc k) pos last_date =
     (let line = py_strip (decode L (fst (readline mm pos)));
          pos = snd (readline mm pos)
      in if line = [] then Inr last_date
         else exn_bind (extract_date_from_line line) (\<lambda>date.
                tail_scan L mm k pos (if date \<noteq> [] then date else last_date)))"

text \<open>
  \<^verbatim>\<open>
  mm.seek(0)
  first_line = mm.readline().decode('utf-8', errors='ignore').strip()
  first_date = extract_date_from_line(first_line)
  pos = max(0, file_size - 100000)
  mm.seek(pos)
  mm.readline()  # Skip partial line
  ...
  return first_date, last_date
  \<close>
  \<open>mmap.seek\<close> raises ValueError for a position behind the end of the map.
\<close>

definition find_date_boundaries :: "pylib \<Rightarrow> string \<Rightarrow> int \<Rightarrow> exn + (string \<times> string)" where
  "find_date_boundaries L mm file_size =
     (let first_line = py_strip (decode L (fst (readline mm 0)))
      in exn_bind (extract_date_from_line first_line) (\<lambda>first_date.
           let pos = max 0 (file_size - 100000)
           in if int (length mm) < pos then Inl ValueError
              else exn_bind (tail_scan L mm 100 (snd (readline mm (nat pos))) ''9999-99-99'')
                     (\<lambda>last_date. Inr (first_date, last_date))))"

subsection \<open>Floating point\<close>

text \<open>
  A finite \<open>float\<close> is the real number it denotes. \<open>to_double x\<close> is the binary64 number
  nearest to the real \<open>x\<close>, ties to the even significand (53 bits, exponents from
  \<open>-1022\<close>, subnormal below), and \<open>Infinite\<close> where that rounding reaches \<open>2 ^ 1024\<close>.
  \<open>ilog2 x\<close> is \<open>\<lfloor>log\<^sub>2 x\<rfloor>\<close> for \<open>x > 0\<close>.
\<close>

datatype pyfloat = Finite real | Infinite

definition pow2 :: "int \<Rightarrow> real" where
  "pow2 k = (if 0 \<le> k then 2 ^ nat k else 1 / 2 ^ nat (- k))"

definition ilog2 :: "real \<Rightarrow> int" where
  "ilog2 x = (if 1 \<le> x then bitlen \<lfloor>x\<rfloor> - 1 else - bitlen (\<lceil>1 / x\<rceil> - 1))"

definition round_half_even :: "real \<Rightarrow> int" where
  "round_half_even x =
     (let f = \<lfloor>x\<rfloor>; d = x - of_int f
      in if d < 1 / 2 then f else if 1 / 2 < d then f + 1 else if even f then f else f + 1)"

definition to_double :: "real \<Rightarrow> pyfloat" where
  "to_double x =
     (if x = 0 then Finite 0
      else let q = max (ilog2 \<bar>x\<bar>) (- 1022) - 52;
               y = of_int (round_half_even (x / pow2 q)) * pow2 q
           in if pow2 1024 \<le> \<bar>y\<bar> then Infinite else Finite y)"

text \<open>
  \<open>a / b\<close> on two \<open>int\<close>: the correctly rounded quotient; ZeroDivisionError for \<open>b = 0\<close>,
  OverflowError when the quotient is too large for a float.
\<close>

definition truediv :: "int \<Rightarrow> int \<Rightarrow> exn + real" where
  "truediv a b =
     (if b = 0 then Inl ZeroDivisionError
      else (case to_double (of_int a / of_int b) of
              Infinite \<Rightarrow> Inl OverflowError | Finite r \<Rightarrow> Inr r))"

text \<open>\<open>n * x\<close> on an \<open>int\<close> and a \<open>float\<close> first converts \<open>n\<close>: OverflowError when too large.\<close>

definition float_of_int :: "int \<Rightarrow> exn + real" where
  "float_of_int n =
     (case to_double (of_int n) of Infinite \<Rightarrow> Inl OverflowError | Finite r \<Rightarrow> Inr r)"

text \<open>The product of two floats: rounded; it overflows to infinity without raising.\<close>

definition fmul :: "real \<Rightarrow> real \<Rightarrow> pyfloat" where
  "fmul x y = to_double (x * y)"

text \<open>\<open>int(x)\<close> on a float: towards zero; OverflowError on infinity.\<close>

definition trunc :: "real \<Rightarrow> int" where
  "trunc r = (if 0 \<le> r then \<lfloor>r\<rfloor> else \<lceil>r\<rceil>)"

definition py_int :: "pyfloat \<Rightarrow> exn + int" where
  "py_int x = (case x of Infinite \<Rightarrow> Inl OverflowError | Finite r \<Rightarrow> Inr (trunc r))"

subsection \<open>Position Estimator: \<open>estimate_position\<close>\<close>

text \<open>
  \<^verbatim>\<open>
  try:
      target = datetime.datetime.strptime(target_date, '%Y-%m-%d')
      min_d = datetime.datetime.strptime(min_date, '%Y-%m-%d')
      max_d = datetime.datetime.strptime(max_date, '%Y-%m-%d')
      total_days = (max_d - min_d).days
      if total_days == 0: return 0
      target_days = (target - min_d).days
      ratio = target_days / total_days
      return int(file_size * ratio)
  except Exception as e:
      return 0
  \<close>
  \<open>estimate_try\<close> is the body of the \<open>try\<close>.
\<close>

definition estimate_try :: "pylib \<Rightarrow> int \<Rightarrow> string \<Rightarrow> string \<Rightarrow> string \<Rightarrow> exn + int" where
  "estimate_try L file_size target_date min_date max_date =
     exn_bind (py_strptime L target_date) (\<lambda>target.
     exn_bind (py_strptime L min_date) (\<lambda>min_d.
     exn_bind (py_strptime L max_date) (\<lambda>max_d.
       let total_days = max_d - min_d
       in if total_days = 0 then Inr 0
          else let target_days = target - min_d
               in exn_bind (truediv target_days total_days) (\<lambda>ratio.
                  exn_bind (float_of_int file_size) (\<lambda>size.
                    py_int (fmul size ratio))))))"

definition estimate_position :: "pylib \<Rightarrow> int \<Rightarrow> string \<Rightarrow> string \<Rightarrow> string \<Rightarrow> int" where
  "estimate_position L file_size target_date min_date max_date =
     (case estimate_try L file_size target_date min_date max_date of
        Inl e \<Rightarrow> 0 | Inr p \<Rightarrow> p)"

text \<open>
  The estimate in the words of the specification, to compare with: 0 on a parse failure
  and on a range of 0 days, else \<open>floor(fileSize * daysBetween(minDate, targetDate) /
  daysBetween(minDate, maxDate))\<close> in exact arithmetic.
\<close>

definition estimate_position_spec ::
  "pylib \<Rightarrow> int \<Rightarrow> string \<Rightarrow> string \<Rightarrow> string \<Rightarrow> int" where
  "estimate_position_spec L file_size target_date min_date max_date =
     (case (strptime L target_date, strptime L min_date, strptime L max_date) of
        (Some target, Some min_d, Some max_d) \<Rightarrow>
          if max_d - min_d = 0 then 0
          else \<lfloor>(of_int file_size :: real) * of_int (target - min_d) / of_int (max_d - min_d)\<rfloor>
      | _ \<Rightarrow> 0)"

subsection \<open>Chunk Planner: the chunk list of \<open>process_file\<close>\<close>

definition chunk_size :: int where
  "chunk_size = 100 * 1024 * 1024"

text \<open>
  \<^verbatim>\<open>
  while start < stop:
      end = min(start + chunk_size, stop)
      chunks.append((start, end))
      start = end
  \<close>
  The loop that covers \<open>[start, stop)\<close>, run twice by \<open>process_file\<close>; \<open>chunks\<close> is the
  list it appends to.
\<close>

function cover :: "int \<Rightarrow> int \<Rightarrow> (int \<times> int) list \<Rightarrow> (int \<times> int) list" where
  "cover start stop chunks =
     (if start < stop
      then cover (min (start + chunk_size) stop) stop
             (chunks @ [(start, min (start + chunk_size) stop)])
      else chunks)"
  by pat_completeness auto
termination
  by (relation "measure (\<lambda>(start, stop, chunks). nat (stop - start))")
     (auto simp: chunk_size_def)

declare cover.simps [simp del]

text \<open>
  \<^verbatim>\<open>
  primary_chunk_size = min(chunk_size * 2, file_size // 2)
  primary_start = max(0, estimated_pos - primary_chunk_size // 2)
  primary_end = min(file_size, primary_start + primary_chunk_size)
  chunks.append((primary_start, primary_end))
  start = 0
  while start < primary_start: ...
  start = primary_end
  while start < file_size: ...
  \<close>
\<close>

definition plan_chunks :: "int \<Rightarrow> int \<Rightarrow> (int \<times> int) list" where
  "plan_chunks file_size estimated_pos =
     (let primary_chunk_size = min (chunk_size * 2) (file_size div 2);
          primary_start = max 0 (estimated_pos - primary_chunk_size div 2);
          primary_end = min file_size (primary_start + primary_chunk_size);
          chunks = [(primary_start, primary_end)];
          chunks = cover 0 primary_start chunks;
          chunks = cover primary_end file_size chunks
      in chunks)"

text \<open>The bytes of a chunk: the half-open range from its start to its end.\<close>

definition chunk_bytes :: "int \<times> int \<Rightarrow> int set" where
  "chunk_bytes c = {fst c ..< snd c}"

subsection \<open>Chunk Scanner: \<open>find_lines_for_date\<close>\<close>

text \<open>
  One round of the read loop, on the line just read:
  \<^verbatim>\<open>
  try:
      ...
      if line and extract_date_from_line(line) == target_date:
          formatted_line = format_line_for_output(line)
          results.append(formatted_line)
  except Exception:
      current_pos = f.tell()
  \<close>
  An exception leaves \<open>results\<close> as it was.
\<close>

definition scan_line :: "string \<Rightarrow> string \<Rightarrow> string list \<Rightarrow> string list" where
  "scan_line target_date line results =
     (case (if line = [] then Inr results
            else exn_bind (extract_date_from_line line) (\<lambda>date.
                   if date = target_date
                   then exn_bind (format_line_for_output line) (\<lambda>formatted_line.
                          Inr (results @ [formatted_line]))
                   else Inr results))
      of Inl e \<Rightarrow> results | Inr rs \<Rightarrow> rs)"

text \<open>
  \<^verbatim>\<open>
  while current_pos < end:
      line = f.readline().decode('utf-8', errors='ignore').strip()
      current_pos = f.tell()
      ...
  \<close>
  Nothing bounds the number of rounds: at the end of the file \<open>readline\<close> returns \<open>b''\<close>
  and the position stays.
\<close>

partial_function (option) scan_loop ::
  "pylib \<Rightarrow> string \<Rightarrow> string \<Rightarrow> int \<Rightarrow> nat \<Rightarrow> string list \<Rightarrow> string list option" where
  "scan_loop L data target_date stop current_pos results =
     (if int current_pos < stop
      then scan_loop L data target_date stop (snd (readline data current_pos))
             (scan_line target_date (py_strip (decode L (fst (readline data current_pos)))) results)
      else Some results)"

declare scan_loop.simps [code]

text \<open>
  \<^verbatim>\<open>
  with open(file_path, 'rb') as f:
      start, end = chunk
      f.seek(start)
      if start > 0:
          f.readline()
      current_pos = f.tell()
      while current_pos < end: ...
  return results
  \<close>
  \<open>data\<close> is the content of the file at \<open>file_path\<close>. Seeking to a negative offset raises;
  seeking behind the end of the file does not, and \<open>tell\<close> then returns that offset.
\<close>

definition find_lines_for_date ::
  "pylib \<Rightarrow> int \<times> int \<Rightarrow> string \<Rightarrow> string \<Rightarrow> (exn + string list) option" where
  "find_lines_for_date L chunk data target_date =
     (let start = fst chunk; stop = snd chunk
      in if start < 0 then Some (Inl OSError)
         else let current_pos = (if 0 < start then snd (readline data (nat start)) else nat start)
              in map_option Inr (scan_loop L data target_date stop current_pos []))"

subsection \<open>Result Aggregator and \<open>process_file\<close>\<close>

text \<open>
  \<open>pool.starmap\<close> returns the results in the order of the arguments, once every task has
  ended: it does not return while one task runs, and raises when one has raised.
\<close>

fun starmap :: "('a \<Rightarrow> (exn + 'b) option) \<Rightarrow> 'a list \<Rightarrow> (exn + 'b list) option" where
  "starmap f [] = Some (Inr [])"
| "starmap f (x # xs) =
     (case f x of None \<Rightarrow> None
      | Some r \<Rightarrow>
          (case starmap f xs of None \<Rightarrow> None
           | Some rs \<Rightarrow> Some (exn_bind r (\<lambda>v. exn_bind rs (\<lambda>vs. Inr (v # vs))))))"

text \<open>
  \<^verbatim>\<open>
  count = 0
  for result_set in chunk_results:
      for line in result_set:
          f.write(line + '\n')
          count += 1
  \<close>
  The state of the two loops is the text written so far and the count.
\<close>

fun write_lines :: "string list \<Rightarrow> string \<times> nat \<Rightarrow> string \<times> nat" where
  "write_lines [] st = st"
| "write_lines (line # rest) st = write_lines rest (fst st @ line @ [CHR 0x0A], snd st + 1)"

fun write_results :: "string list list \<Rightarrow> string \<times> nat \<Rightarrow> string \<times> nat" where
  "write_results [] st = st"
| "write_results (result_set # rest) st = write_results rest (write_lines result_set st)"

text \<open>
  What a call of \<open>process_file\<close> that returns leaves behind: the value it returned, the
  text it wrote to the output file (\<open>None\<close>: it never opened the file) and the count it
  printed (\<open>None\<close>: it printed none).
\<close>

datatype run = Run (returned: bool) (output_file: "string option") (reported: "nat option")

text \<open>
  \<open>data\<close> is the content of the log file, which exists. \<open>mmap.mmap(f.fileno(), 0, ...)\<close>
  raises ValueError on an empty file (\<^emph>\<open>cannot mmap an empty file\<close>). Every exception in
  the body is caught by \<open>except Exception\<close>, which prints it and returns \<open>False\<close>; the
  output file is opened only after the pool has returned. The output path is the one
  \<open>main\<close> passes, \<open>output/output_<date>.txt\<close>: creating its directory and writing to it
  succeed. The pool runs the scanners in worker processes that share nothing, so its
  result is that of calling them one after the other.
\<close>

definition process_file :: "pylib \<Rightarrow> string \<Rightarrow> string \<Rightarrow> run option" where
  "process_file L data target_date =
     (let file_size = int (length data)
      in if data = [] then Some (Run False None None)
         else (case find_date_boundaries L data file_size of
                 Inl e \<Rightarrow> Some (Run False None None)
               | Inr dates \<Rightarrow>
                   (let estimated_pos =
                          estimate_position L file_size target_date (fst dates) (snd dates);
                        chunks = plan_chunks file_size estimated_pos
                    in (case starmap (\<lambda>chunk. find_lines_for_date L chunk data target_date) chunks of
                          None \<Rightarrow> None
                        | Some (Inl e) \<Rightarrow> Some (Run False None None)
                        | Some (Inr chunk_results) \<Rightarrow>
                            Some (Run True (Some (fst (write_results chunk_results ([], 0))))
                                           (Some (snd (write_results chunk_results ([], 0)))))))))"

section \<open>Properties\<close>

subsection \<open>Strings\<close>

lemma getitem_in_range: "i < length xs \<Longrightarrow> getitem xs i = Inr (xs ! i)"
  by (simp add: getitem_def)

lemma py_find_None_iff: "py_find [c] s = None \<longleftrightarrow> c \<notin> set s"
  by (induction s) (auto split: option.splits)

lemma py_find_single:
  "c \<in> set s \<Longrightarrow>
   py_find [c] s = Some (takeWhile (\<lambda>x. x \<noteq> c) s, tl (dropWhile (\<lambda>x. x \<noteq> c) s))"
  by (induction s) (auto split: option.splits)

lemma py_contains_single: "py_contains [c] s \<longleftrightarrow> c \<in> set s"
  by (simp add: py_contains_def py_find_None_iff)

lemma split_max_single:
  "\<exists>rest. py_split_max [c] (Suc n) s = takeWhile (\<lambda>x. x \<noteq> c) s # rest"
proof (cases "c \<in> set s")
  case True
  then show ?thesis by (simp add: py_find_single)
next
  case False
  then have none: "py_find [c] s = None" by (simp add: py_find_None_iff)
  from False have tw: "takeWhile (\<lambda>x. x \<noteq> c) s = s"
    by (auto simp: takeWhile_eq_all_conv)
  have "py_split_max [c] (Suc n) s = [s]" by (simp add: none)
  then have "py_split_max [c] (Suc n) s = takeWhile (\<lambda>x. x \<noteq> c) s # []"
    by (simp only: tw)
  then show ?thesis by blast
qed

lemma hd_split_single:
  assumes "s \<noteq> []"
  shows "getitem (py_split [c] s) 0 = Inr (takeWhile (\<lambda>x. x \<noteq> c) s)"
proof -
  from assms obtain n where n: "length s = Suc n" by (cases s) auto
  obtain rest where "py_split_max [c] (Suc n) s = takeWhile (\<lambda>x. x \<noteq> c) s # rest"
    using split_max_single by blast
  then show ?thesis by (simp add: py_split_def n getitem_def)
qed

lemma py_replace_single:
  "py_replace [c] [d] s = map (\<lambda>x. if x = c then d else x) s"
  by (induction s) auto

lemma py_find_None_replace:
  "py_find old s = None \<Longrightarrow> py_replace old new s = s"
  by (induction s) (auto split: if_splits option.splits)

lemma py_replace_if_contains:
  "old \<noteq> [] \<Longrightarrow>
   (if py_contains old s then py_replace old new s else s) = py_replace old new s"
  by (cases "py_find old s") (simp_all add: py_contains_def py_find_None_replace)

lemma length_py_split_max: "length (py_split_max sep n s) \<le> Suc n"
  by (induction n arbitrary: s) (auto split: option.splits)

lemma py_split_max_nonempty: "py_split_max sep n s \<noteq> []"
  by (cases n) (auto split: option.splits)

lemma set_py_replace_delete: "set (py_replace old [] s) \<subseteq> set s"
proof (induction old "[] :: string" s rule: py_replace.induct)
  case (1 old)
  then show ?case by simp
next
  case (2 old c cs)
  show ?case
  proof (cases "old \<noteq> [] \<and> take (length old) (c # cs) = old")
    case True
    with 2 have "set (py_replace old [] (drop (length old) (c # cs)))
        \<subseteq> set (drop (length old) (c # cs))"
      by blast
    also have "\<dots> \<subseteq> set (c # cs)" by (rule set_drop_subset)
    finally show ?thesis using True by simp
  next
    case False
    with 2 show ?thesis by auto
  qed
qed

lemma list_le3_cases:
  "xs \<noteq> [] \<Longrightarrow> length xs \<le> 3 \<Longrightarrow>
   (\<exists>a. xs = [a]) \<or> (\<exists>a b. xs = [a, b]) \<or> (\<exists>a b c. xs = [a, b, c])"
  by (auto simp: le_Suc_eq length_Suc_conv numeral_3_eq_3)

lemma format_line_eq:
  "format_line_for_output line =
     Inr (case py_split_max '' - '' 2 line of
            [p0, p1, p2] \<Rightarrow>
              if CHR ''T'' \<in> set line
              then py_replace ''.0000'' []
                     (map (\<lambda>c. if c = CHR ''T'' then CHR '' '' else c) p0)
                   @ '' '' @ p1 @ '' '' @ p2
              else line
          | _ \<Rightarrow> line)"
proof -
  let ?parts = "py_split_max '' - '' 2 line"
  have len: "length ?parts \<le> 3"
    using length_py_split_max [of "'' - ''" 2 line] by simp
  have ne: "?parts \<noteq> []" by (rule py_split_max_nonempty)
  from list_le3_cases [OF ne len] consider
      (one) a where "?parts = [a]"
    | (two) a b where "?parts = [a, b]"
    | (three) a b c where "?parts = [a, b, c]"
    by blast
  then show ?thesis
  proof cases
    case one
    then show ?thesis by (simp add: format_line_for_output_def)
  next
    case two
    then show ?thesis by (simp add: format_line_for_output_def)
  next
    case three
    then show ?thesis
      by (simp add: format_line_for_output_def py_contains_single getitem_def exn_bind_def
          py_replace_single py_replace_if_contains Let_def)
  qed
qed

lemma format_line_no_T:
  "CHR ''T'' \<notin> set line \<Longrightarrow> format_line_for_output line = Inr line"
  by (simp add: format_line_for_output_def py_contains_single)

lemma py_find_Some_eq: "py_find sep s = Some (a, b) \<Longrightarrow> s = a @ sep @ b"
proof (induction s arbitrary: a)
  case Nil
  then show ?case by simp
next
  case (Cons c cs)
  show ?case
  proof (cases "take (length sep) (c # cs) = sep")
    case True
    with Cons.prems have "a = []" "b = drop (length sep) (c # cs)" by simp_all
    moreover have "take (length sep) (c # cs) @ drop (length sep) (c # cs) = c # cs"
      by (rule append_take_drop_id)
    ultimately show ?thesis using True by simp
  next
    case False
    with Cons.prems obtain a' where f: "py_find sep cs = Some (a', b)" and a: "a = c # a'"
      by (auto split: option.splits)
    from Cons.IH [OF f] a show ?thesis by simp
  qed
qed

lemma py_split_max_three:
  assumes "py_split_max sep 2 s = [a, b, c]"
  shows "s = a @ sep @ b @ sep @ c"
proof -
  from assms obtain r where 1: "py_find sep s = Some (a, r)" and 2: "py_split_max sep 1 r = [b, c]"
    by (auto simp: numeral_2_eq_2 split: option.splits)
  from 2 have 3: "py_find sep r = Some (b, c)"
    by (auto split: option.splits)
  from py_find_Some_eq [OF 1] py_find_Some_eq [OF 3] show ?thesis by simp
qed

lemma length_py_replace_delete: "length (py_replace old [] s) \<le> length s"
proof (induction old "[] :: string" s rule: py_replace.induct)
  case (1 old)
  then show ?case by simp
next
  case (2 old c cs)
  show ?case
  proof (cases "old \<noteq> [] \<and> take (length old) (c # cs) = old")
    case True
    with 2 have "length (py_replace old [] (drop (length old) (c # cs)))
        \<le> length (drop (length old) (c # cs))"
      by blast
    also have "\<dots> \<le> length (c # cs)" by simp
    finally show ?thesis using True by simp
  next
    case False
    with 2 show ?thesis by auto
  qed
qed

lemma format_line_changes:
  assumes parts: "py_split_max '' - '' 2 out = [a, b, c]" and T: "CHR ''T'' \<in> set out"
  shows "format_line_for_output out \<noteq> Inr out"
proof -
  let ?ts = "py_replace ''.0000'' [] (map (\<lambda>c. if c = CHR ''T'' then CHR '' '' else c) a)"
  have f: "format_line_for_output out = Inr (?ts @ '' '' @ b @ '' '' @ c)"
    using parts T by (simp add: format_line_eq)
  have "length ?ts \<le> length a"
    using length_py_replace_delete [of "''.0000''" "map (\<lambda>c. if c = CHR ''T'' then CHR '' '' else c) a"]
    by simp
  moreover have "length out = length a + length b + length c + 6"
    using py_split_max_three [OF parts] by simp
  ultimately have "length (?ts @ '' '' @ b @ '' '' @ c) < length out" by simp
  then have "?ts @ '' '' @ b @ '' '' @ c \<noteq> out" by auto
  with f show ?thesis by simp
qed

lemma format_line_fixed_iff:
  "format_line_for_output out = Inr out \<longleftrightarrow>
     length (py_split_max '' - '' 2 out) < 3 \<or> CHR ''T'' \<notin> set out"
proof -
  let ?parts = "py_split_max '' - '' 2 out"
  have len: "length ?parts \<le> 3"
    using length_py_split_max [of "'' - ''" 2 out] by simp
  have ne: "?parts \<noteq> []" by (rule py_split_max_nonempty)
  from list_le3_cases [OF ne len] consider
      (one) a where "?parts = [a]"
    | (two) a b where "?parts = [a, b]"
    | (three) a b c where "?parts = [a, b, c]"
    by blast
  then show ?thesis
  proof cases
    case one
    then show ?thesis by (simp add: format_line_eq)
  next
    case two
    then show ?thesis by (simp add: format_line_eq)
  next
    case three
    show ?thesis
    proof (cases "CHR ''T'' \<in> set out")
      case True
      with format_line_changes [OF three True] three show ?thesis by simp
    next
      case False
      with format_line_no_T [OF False] show ?thesis by simp
    qed
  qed
qed

lemma extract_date_eq:
  "extract_date_from_line line =
     Inr (if 10 \<le> length line \<and> line ! 4 = CHR ''-'' \<and> line ! 7 = CHR ''-''
          then (if CHR ''T'' \<in> set (take 19 line)
                then takeWhile (\<lambda>c. c \<noteq> CHR ''T'') line else take 10 line)
          else ''0000-00-00'')"
  by (auto simp: extract_date_from_line_def exn_bind_def getitem_in_range py_contains_single
      hd_split_single)

subsection \<open>The Date Extractor\<close>

text \<open>
  Claim C6. The Date Extractor never raises. On a line of at least 10 characters with
  \<open>-\<close> at positions 4 and 7 it returns the text before the first \<open>T\<close> when a \<open>T\<close> stands
  among the first 19 characters, and the first 10 characters otherwise; on every other
  line, the empty one included, it returns \<open>0000-00-00\<close>.
\<close>

theorem extract_date_total:
  "extract_date_from_line line =
     Inr (if 10 \<le> length line \<and> line ! 4 = CHR ''-'' \<and> line ! 7 = CHR ''-''
          then (if CHR ''T'' \<in> set (take 19 line)
                then takeWhile (\<lambda>c. c \<noteq> CHR ''T'') line else take 10 line)
          else ''0000-00-00'')"
  by (rule extract_date_eq)

theorem extract_date_total_witness:
  "extract_date_from_line ''2024-12-01T02:49:15.0000 - INFO - started'' = Inr ''2024-12-01'' \<and>
   extract_date_from_line ''2024-12-01 02:49:15'' = Inr ''2024-12-01'' \<and>
   extract_date_from_line ''no date'' = Inr ''0000-00-00'' \<and>
   extract_date_from_line [] = Inr ''0000-00-00''"
  using extract_date_total [of "''2024-12-01T02:49:15.0000 - INFO - started''"]
    extract_date_total [of "''2024-12-01 02:49:15''"]
    extract_date_total [of "''no date''"]
    extract_date_total [of "[]"]
  by simp

subsection \<open>The Line Normalizer\<close>

text \<open>
  Claim C7, as stated, fails in two places. A line that splits into three parts and holds
  no \<open>T\<close> is returned as it is, not rejoined; and \<open>.0000\<close> is removed wherever it stands
  in the first part, not only as its suffix.
\<close>

theorem format_line_counterexample:
  "py_split_max '' - '' 2 ''2024-01-01 00:00:00 - INFO - up''
     = [''2024-01-01 00:00:00'', ''INFO'', ''up''] \<and>
   format_line_for_output ''2024-01-01 00:00:00 - INFO - up''
     = Inr ''2024-01-01 00:00:00 - INFO - up'' \<and>
   format_line_for_output ''2024-01-01 00:00:00 - INFO - up''
     \<noteq> Inr ''2024-01-01 00:00:00 INFO up'' \<and>
   format_line_for_output ''2024-01-01T00:00:00.00001 - INFO - up''
     = Inr ''2024-01-01 00:00:001 INFO up'' \<and>
   format_line_for_output ''2024-01-01T00:00:00.00001 - INFO - up''
     \<noteq> Inr ''2024-01-01 00:00:00.00001 INFO up''"
  by (simp add: format_line_for_output_def py_contains_def getitem_def exn_bind_def
      numeral_2_eq_2)

text \<open>
  Claim C7, amended. The Line Normalizer never raises. It splits the line at \<open>' - '\<close> into
  at most 3 parts. A line that gives fewer than 3 parts, or that holds no \<open>T\<close>, is returned
  as it is. A line with a \<open>T\<close> and 3 parts becomes part 1 with every \<open>T\<close> replaced by a
  space and every \<open>.0000\<close> removed, a space, part 2, a space, part 3.
\<close>

theorem format_line_cases:
  "length (py_split_max '' - '' 2 line) \<le> 3 \<and>
   format_line_for_output line =
     Inr (case py_split_max '' - '' 2 line of
            [p0, p1, p2] \<Rightarrow>
              if CHR ''T'' \<in> set line
              then py_replace ''.0000'' []
                     (map (\<lambda>c. if c = CHR ''T'' then CHR '' '' else c) p0)
                   @ '' '' @ p1 @ '' '' @ p2
              else line
          | _ \<Rightarrow> line)"
proof
  show "length (py_split_max '' - '' 2 line) \<le> 3"
    using length_py_split_max [of "'' - ''" 2 line] by simp
qed (rule format_line_eq)

theorem format_line_cases_witness:
  "format_line_for_output ''2024-12-01T02:49:15.0000 - INFO - started''
     = Inr ''2024-12-01 02:49:15 INFO started'' \<and>
   format_line_for_output ''2024-12-01T02:49:15.0000 - started''
     = Inr ''2024-12-01T02:49:15.0000 - started''"
  using format_line_cases [of "''2024-12-01T02:49:15.0000 - INFO - started''"]
    format_line_cases [of "''2024-12-01T02:49:15.0000 - started''"]
  by (simp add: numeral_2_eq_2)

text \<open>
  Claim C8, as stated, fails: the output of normalising a structured line can itself hold
  a \<open>T\<close> and two separators, both from the message, and is then rewritten again.
\<close>

theorem format_line_idempotent_counterexample:
  "format_line_for_output ''2024-01-01T00:00:00.0000 - INFO - Task - a - b''
     = Inr ''2024-01-01 00:00:00 INFO Task - a - b'' \<and>
   format_line_for_output ''2024-01-01 00:00:00 INFO Task - a - b''
     = Inr ''2024-01-01 00:00:00 INFO  ask a b'' \<and>
   format_line_for_output ''2024-01-01 00:00:00 INFO Task - a - b''
     \<noteq> Inr ''2024-01-01 00:00:00 INFO Task - a - b''"
  by (simp add: format_line_for_output_def py_contains_def getitem_def exn_bind_def
      numeral_2_eq_2)

text \<open>
  Claim C8, amended. The Line Normalizer returns a line unchanged exactly when the line
  gives fewer than 3 parts or holds no \<open>T\<close>. So normalising an already normalised line
  returns it unchanged unless that line still holds a \<open>T\<close> and two separators \<open>' - '\<close>;
  then it is rewritten again (and gets shorter).
\<close>

theorem format_line_idempotent:
  "(format_line_for_output out = Inr out) =
     (length (py_split_max '' - '' 2 out) < 3 \<or> CHR ''T'' \<notin> set out)"
  by (rule format_line_fixed_iff)

theorem format_line_idempotent_witness:
  "format_line_for_output ''2024-12-01T02:49:15.0000 - INFO - started''
     = Inr ''2024-12-01 02:49:15 INFO started'' \<and>
   format_line_for_output ''2024-12-01 02:49:15 INFO started''
     = Inr ''2024-12-01 02:49:15 INFO started'' \<and>
   format_line_for_output ''2024-01-01T00:00:00.0000 - FATAL - Task done''
     = Inr ''2024-01-01 00:00:00 FATAL Task done'' \<and>
   format_line_for_output ''2024-01-01 00:00:00 FATAL Task done''
     = Inr ''2024-01-01 00:00:00 FATAL Task done''"
proof -
  have 1: "format_line_for_output ''2024-12-01T02:49:15.0000 - INFO - started''
     = Inr ''2024-12-01 02:49:15 INFO started''"
    and 2: "format_line_for_output ''2024-01-01T00:00:00.0000 - FATAL - Task done''
     = Inr ''2024-01-01 00:00:00 FATAL Task done''"
    by (simp_all add: format_line_for_output_def py_contains_def getitem_def exn_bind_def
      numeral_2_eq_2)
  have 3: "format_line_for_output ''2024-12-01 02:49:15 INFO started''
     = Inr ''2024-12-01 02:49:15 INFO started''"
    using format_line_idempotent [of "''2024-12-01 02:49:15 INFO started''"] by simp
  have 4: "format_line_for_output ''2024-01-01 00:00:00 FATAL Task done''
     = Inr ''2024-01-01 00:00:00 FATAL Task done''"
    using format_line_idempotent [of "''2024-01-01 00:00:00 FATAL Task done''"]
    by (simp add: numeral_2_eq_2)
  from 1 3 2 4 show ?thesis by blast
qed

subsection \<open>Concrete runs\<close>

text \<open>Rewrite rules that evaluate the definitions on a given input.\<close>

lemma strptime_iso_examples:
  "strptime_iso ''2024-01-01'' = Some 738886"
  "strptime_iso ''2024-01-02'' = Some 738887"
  "strptime_iso ''2024-01-03'' = Some 738888"
  "strptime_iso ''2024-01-04'' = Some 738889"
  "strptime_iso ''2024-01-05'' = Some 738890"
  "strptime_iso ''2024-02-19'' = Some 738935"
  "strptime_iso ''0000-00-00'' = None"
  "strptime_iso ''9999-99-99'' = None"
  by (simp_all add: strptime_iso_def digit_def days_in_month_def is_leap_def ymd2ord_def
      days_before_year_def days_before_month_def upto.simps)

lemma tail_scan_unfold:
  "0 < k \<Longrightarrow> tail_scan L mm k pos last_date =
     (let line = py_strip (decode L (fst (readline mm pos)));
          pos = snd (readline mm pos)
      in if line = [] then Inr last_date
         else exn_bind (extract_date_from_line line) (\<lambda>date.
                tail_scan L mm (k - 1) pos (if date \<noteq> [] then date else last_date)))"
  by (cases k) (auto simp: Let_def)

lemmas double_simps = to_double_def ilog2_def pow2_def round_half_even_def Let_def
  compute_bitlen trunc_def

lemmas estimate_simps = estimate_position_def estimate_try_def py_strptime_def cpython_def
  exn_bind_def truediv_def float_of_int_def fmul_def py_int_def strptime_iso_examples

lemmas boundary_simps = find_date_boundaries_def readline_def file_of_lines_def py_strip_def
  isspace_def cpython_def decode_ascii_def extract_date_eq tail_scan_unfold exn_bind_def Let_def

subsection \<open>The Boundary Detector\<close>

text \<open>
  Claim C5 at a file of two lines, neither with the shape of a date: the Boundary Detector
  returns \<open>0000-00-00\<close> as the maximal date, not \<open>9999-99-99\<close>. The token of a line
  without a date is the non-empty text \<open>0000-00-00\<close>, so the test \<open>if date:\<close> lets it
  overwrite \<open>last_date\<close>.
\<close>

theorem boundary_sentinel_overwritten:
  "find_date_boundaries cpython (file_of_lines [''abc'', ''def'']) 8
     = Inr (''0000-00-00'', ''0000-00-00'')"
  by (simp add: boundary_simps)

subsection \<open>The Position Estimator\<close>

text \<open>
  Claim C9, as stated, fails twice. For a target one day before a range of two days and a
  file of 5 bytes the program returns \<open>int(-2.5) = -2\<close>, the floor is \<open>-3\<close>: \<open>int\<close>
  rounds towards zero. For a target one day into a range of 49 days and a file of 49 bytes
  it returns 0, the floor of the exact quotient is 1: \<open>1 / 49\<close> is rounded to a float
  and \<open>49\<close> times that float is below 1.
\<close>

theorem estimate_position_counterexample:
  "estimate_position cpython 5 ''2024-01-02'' ''2024-01-03'' ''2024-01-05'' = - 2 \<and>
   estimate_position_spec cpython 5 ''2024-01-02'' ''2024-01-03'' ''2024-01-05'' = - 3 \<and>
   estimate_position cpython 49 ''2024-01-02'' ''2024-01-01'' ''2024-02-19'' = 0 \<and>
   estimate_position_spec cpython 49 ''2024-01-02'' ''2024-01-01'' ''2024-02-19'' = 1"
  by (simp add: estimate_simps estimate_position_spec_def double_simps)

text \<open>
  Claim C9, amended. The Position Estimator returns 0 when one of the three dates does not
  parse and when the range has 0 days, in particular when \<open>minDate = maxDate\<close>. Otherwise
  it computes in double precision: the quotient of the two day counts rounded to a float,
  the file size converted to a float, their product rounded to a float; it returns that
  product rounded towards zero (upwards for a target before \<open>minDate\<close>), and 0 when a
  step overflows.
\<close>

theorem estimate_position_cases:
  "estimate_position L file_size target_date min_date max_date =
     (case (strptime L target_date, strptime L min_date, strptime L max_date) of
        (Some target, Some min_d, Some max_d) \<Rightarrow>
          if max_d - min_d = 0 then 0
          else (case to_double (of_int (target - min_d) / of_int (max_d - min_d)) of
                  Infinite \<Rightarrow> 0
                | Finite ratio \<Rightarrow>
                    (case to_double (of_int file_size) of
                       Infinite \<Rightarrow> 0
                     | Finite fsize \<Rightarrow>
                         (case to_double (fsize * ratio) of
                            Infinite \<Rightarrow> 0
                          | Finite p \<Rightarrow> if 0 \<le> p then \<lfloor>p\<rfloor> else \<lceil>p\<rceil>)))
      | _ \<Rightarrow> 0) \<and>
   (min_date = max_date \<longrightarrow> estimate_position L file_size target_date min_date max_date = 0)"
  by (auto simp: estimate_position_def estimate_try_def py_strptime_def exn_bind_def
      truediv_def float_of_int_def fmul_def py_int_def trunc_def
      split: option.splits pyfloat.splits sum.splits)

theorem estimate_position_cases_witness:
  "estimate_position cpython 1000 ''2024-01-02'' ''2024-01-01'' ''2024-01-05'' = 250 \<and>
   estimate_position cpython 1000 ''2024-01-02'' ''2024-01-03'' ''2024-01-03'' = 0 \<and>
   estimate_position cpython 1000 ''2024-01-02'' ''0000-00-00'' ''9999-99-99'' = 0"
  using estimate_position_cases [of cpython 1000 "''2024-01-02''" "''2024-01-01''" "''2024-01-05''"]
    estimate_position_cases [of cpython 1000 "''2024-01-02''" "''2024-01-03''" "''2024-01-03''"]
    estimate_position_cases [of cpython 1000 "''2024-01-02''" "''0000-00-00''" "''9999-99-99''"]
  by (simp add: cpython_def strptime_iso_examples double_simps)

subsection \<open>The Chunk Planner\<close>

lemma cover_append: "cover a b (cs @ ds) = cs @ cover a b ds"
proof (induction a b ds arbitrary: cs rule: cover.induct)
  case (1 start stop chunks)
  show ?case
  proof (cases "start < stop")
    case True
    with 1 [of "cs"] show ?thesis
      by (subst (1 2) cover.simps) simp
  next
    case False
    then show ?thesis by (subst (1 2) cover.simps) simp
  qed
qed

lemma cover_acc: "cover a b cs = cs @ cover a b []"
  using cover_append [of a b cs "[]"] by simp

lemma cover_Nil: "\<not> a < b \<Longrightarrow> cover a b [] = []"
  by (subst cover.simps) simp

lemma cover_step:
  "a < b \<Longrightarrow> cover a b [] = (a, min (a + chunk_size) b) # cover (min (a + chunk_size) b) b []"
  by (subst cover.simps, subst cover_acc) simp

lemma cover_props:
  "a \<le> b \<Longrightarrow>
   (\<forall>c \<in> set (cover a b []). a \<le> fst c \<and> fst c < snd c \<and> snd c \<le> b) \<and>
   (\<Union>c \<in> set (cover a b []). chunk_bytes c) = {a ..< b} \<and>
   sorted_wrt (\<lambda>c d. snd c \<le> fst d) (cover a b [])"
proof (induction "nat (b - a)" arbitrary: a rule: less_induct)
  case less
  show ?case
  proof (cases "a < b")
    case False
    with less.prems show ?thesis by (simp add: cover_Nil)
  next
    case True
    define e where "e = min (a + chunk_size) b"
    have cs: "0 < chunk_size" by (simp add: chunk_size_def)
    from True cs have e: "a < e" "e \<le> b" by (auto simp: e_def)
    then have "nat (b - e) < nat (b - a)" by linarith
    from less.hyps [OF this e(2)]
    have IH1: "\<forall>c \<in> set (cover e b []). e \<le> fst c \<and> fst c < snd c \<and> snd c \<le> b"
      and IH2: "(\<Union>c \<in> set (cover e b []). chunk_bytes c) = {e ..< b}"
      and IH3: "sorted_wrt (\<lambda>c d. snd c \<le> fst d) (cover e b [])"
      by blast+
    have eq: "cover a b [] = (a, e) # cover e b []"
      unfolding e_def using True by (rule cover_step)
    have 1: "\<forall>c \<in> set (cover a b []). a \<le> fst c \<and> fst c < snd c \<and> snd c \<le> b"
    proof
      fix c assume "c \<in> set (cover a b [])"
      then have "c = (a, e) \<or> c \<in> set (cover e b [])" by (simp add: eq)
      then show "a \<le> fst c \<and> fst c < snd c \<and> snd c \<le> b"
      proof
        assume "c = (a, e)"
        with e show ?thesis by simp
      next
        assume "c \<in> set (cover e b [])"
        with IH1 have "e \<le> fst c \<and> fst c < snd c \<and> snd c \<le> b" by blast
        with e show ?thesis by linarith
      qed
    qed
    have u: "{a ..< e} \<union> {e ..< b} = {a ..< b}"
      using e by (rule_tac ivl_disj_un_two(3)) simp_all
    have "(\<Union>c \<in> set (cover a b []). chunk_bytes c) = {a ..< e} \<union> (\<Union>c \<in> set (cover e b []). chunk_bytes c)"
      by (simp add: eq chunk_bytes_def)
    then have 2: "(\<Union>c \<in> set (cover a b []). chunk_bytes c) = {a ..< b}"
      by (simp only: IH2 u)
    have "\<forall>c \<in> set (cover e b []). snd (a, e) \<le> fst c"
      using IH1 by simp
    then have 3: "sorted_wrt (\<lambda>c d. snd c \<le> fst d) (cover a b [])"
      using IH3 by (simp add: eq)
    from 1 2 3 show ?thesis by blast
  qed
qed

lemma cover_bounds:
  "a \<le> b \<Longrightarrow> c \<in> set (cover a b []) \<Longrightarrow> a \<le> fst c \<and> fst c < snd c \<and> snd c \<le> b"
  using cover_props by blast

lemma cover_union: "a \<le> b \<Longrightarrow> (\<Union>c \<in> set (cover a b []). chunk_bytes c) = {a ..< b}"
  using cover_props by blast

lemma cover_sorted: "a \<le> b \<Longrightarrow> sorted_wrt (\<lambda>c d. snd c \<le> fst d) (cover a b [])"
  using cover_props by blast

lemma cover_empty: "\<not> a \<le> b \<Longrightarrow> cover a b [] = []"
  by (simp add: cover_Nil)

lemma cover_acc_nonempty: "cs \<noteq> [] \<Longrightarrow> cover a b cs = cs @ cover a b []"
  by (rule cover_acc)

lemma cover_ascending: "sorted_wrt (\<lambda>c d. fst c < fst d) (cover a b [])"
proof (cases "a \<le> b")
  case True
  have s: "sorted_wrt (\<lambda>c d. snd c \<le> fst d) (cover a b [])"
    by (rule cover_sorted [OF True])
  show ?thesis
  proof (rule sorted_wrt_mono_rel [OF _ s])
    fix c d
    assume "c \<in> set (cover a b [])" and "snd c \<le> fst d"
    with cover_bounds [OF True, of c] show "fst c < fst d" by linarith
  qed
next
  case False
  then show ?thesis by (simp add: cover_empty)
qed

lemma plan_chunks_eq:
  "plan_chunks file_size estimated_pos =
     (let primary_chunk_size = min (chunk_size * 2) (file_size div 2);
          primary_start = max 0 (estimated_pos - primary_chunk_size div 2);
          primary_end = min file_size (primary_start + primary_chunk_size)
      in (primary_start, primary_end) # cover 0 primary_start [] @ cover primary_end file_size [])"
  by (simp add: plan_chunks_def Let_def cover_acc_nonempty)

lemma disjoint_sorted:
  assumes s: "sorted_wrt (\<lambda>c d. snd c \<le> fst d) cs"
  shows "sorted_wrt (\<lambda>c d. chunk_bytes c \<inter> chunk_bytes d = {}) cs"
  by (rule sorted_wrt_mono_rel [OF _ s]) (auto simp: chunk_bytes_def)

lemma plan_small: "plan_chunks 0 0 = [(0, 0)]" "plan_chunks 100 200 = [(175, 100), (0, 175)]"
  "plan_chunks 26 0 = [(0, 13), (13, 26)]"
  by (simp_all add: plan_chunks_def Let_def cover.simps chunk_size_def)


text \<open>
  Where the start of the primary chunk lies within the file, the chunk list is a
  partition of the file: every chunk satisfies \<open>0 \<le> start \<le> end \<le> fileSize\<close>, the
  coverage chunks are non-empty (the primary chunk, appended whatever its size, can be
  empty), the chunks are pairwise disjoint and their union is \<open>[0, fileSize)\<close>.
\<close>

lemma plan_chunks_partition:
  assumes fs: "0 \<le> file_size"
    and est: "estimated_pos - min (chunk_size * 2) (file_size div 2) div 2 \<le> file_size"
  shows "(\<forall>c \<in> set (plan_chunks file_size estimated_pos).
            0 \<le> fst c \<and> fst c \<le> snd c \<and> snd c \<le> file_size) \<and>
         (\<forall>c \<in> set (tl (plan_chunks file_size estimated_pos)). fst c < snd c) \<and>
         (\<forall>i j. i < j \<and> j < length (plan_chunks file_size estimated_pos) \<longrightarrow>
            chunk_bytes (plan_chunks file_size estimated_pos ! i)
              \<inter> chunk_bytes (plan_chunks file_size estimated_pos ! j) = {}) \<and>
         (\<Union>c \<in> set (plan_chunks file_size estimated_pos). chunk_bytes c) = {0 ..< file_size}"
proof -
  define pcs where "pcs = min (chunk_size * 2) (file_size div 2)"
  define ps where "ps = max 0 (estimated_pos - pcs div 2)"
  define pe where "pe = min file_size (ps + pcs)"
  have plan: "plan_chunks file_size estimated_pos = (ps, pe) # cover 0 ps [] @ cover pe file_size []"
    by (simp add: plan_chunks_eq pcs_def ps_def pe_def Let_def)
  have pcs0: "0 \<le> pcs" using fs by (simp add: pcs_def chunk_size_def)
  have ps0: "0 \<le> ps" by (simp add: ps_def)
  have psfs: "ps \<le> file_size" using est fs by (simp add: ps_def pcs_def)
  have pspe: "ps \<le> pe" using pcs0 psfs by (simp add: pe_def)
  have pefs: "pe \<le> file_size" by (simp add: pe_def)
  note pre = cover_bounds [OF ps0] and suf = cover_bounds [OF pefs]
  have 1: "\<forall>c \<in> set (plan_chunks file_size estimated_pos).
            0 \<le> fst c \<and> fst c \<le> snd c \<and> snd c \<le> file_size"
    unfolding plan using pre suf ps0 psfs pspe pefs by fastforce
  have 2: "\<forall>c \<in> set (tl (plan_chunks file_size estimated_pos)). fst c < snd c"
    unfolding plan using pre suf by auto
  have "sorted_wrt (\<lambda>c d. chunk_bytes c \<inter> chunk_bytes d = {}) ((ps, pe) # cover 0 ps [] @ cover pe file_size [])"
  proof -
    have a: "\<forall>c \<in> set (cover 0 ps []). chunk_bytes (ps, pe) \<inter> chunk_bytes c = {}"
    proof
      fix c assume "c \<in> set (cover 0 ps [])"
      from pre [OF this] have "snd c \<le> ps" by simp
      then show "chunk_bytes (ps, pe) \<inter> chunk_bytes c = {}" by (auto simp: chunk_bytes_def)
    qed
    have b: "\<forall>c \<in> set (cover pe file_size []). chunk_bytes (ps, pe) \<inter> chunk_bytes c = {}"
    proof
      fix c assume "c \<in> set (cover pe file_size [])"
      from suf [OF this] have "pe \<le> fst c" by simp
      then show "chunk_bytes (ps, pe) \<inter> chunk_bytes c = {}" by (auto simp: chunk_bytes_def)
    qed
    have c: "\<forall>c \<in> set (cover 0 ps []). \<forall>d \<in> set (cover pe file_size []). chunk_bytes c \<inter> chunk_bytes d = {}"
    proof (intro ballI)
      fix c d assume "c \<in> set (cover 0 ps [])" and "d \<in> set (cover pe file_size [])"
      from pre [OF this(1)] suf [OF this(2)] pspe have "snd c \<le> fst d" by linarith
      then show "chunk_bytes c \<inter> chunk_bytes d = {}" by (auto simp: chunk_bytes_def)
    qed
    show ?thesis
      using a b c disjoint_sorted [OF cover_sorted [OF ps0]]
        disjoint_sorted [OF cover_sorted [OF pefs]]
      by (auto simp: sorted_wrt_append)
  qed
  then have 3: "\<forall>i j. i < j \<and> j < length (plan_chunks file_size estimated_pos) \<longrightarrow>
            chunk_bytes (plan_chunks file_size estimated_pos ! i)
              \<inter> chunk_bytes (plan_chunks file_size estimated_pos ! j) = {}"
    unfolding plan by (simp only: sorted_wrt_iff_nth_less) blast
  have "{ps ..< pe} \<union> {0 ..< ps} \<union> {pe ..< file_size} = {0 ..< file_size}"
    using ps0 pspe pefs by auto
  then have 4: "(\<Union>c \<in> set (plan_chunks file_size estimated_pos). chunk_bytes c) = {0 ..< file_size}"
    unfolding plan using cover_union [OF ps0] cover_union [OF pefs]
    by (simp add: chunk_bytes_def UN_Un Un_assoc)
  from 1 2 3 4 show ?thesis by blast
qed

text \<open>
  Claim C2 at the file of the two lines \<open>2024-01-01\<close> and \<open>2024-01-02\<close> (22 bytes) and
  the target \<open>2024-01-04\<close>: the Boundary Detector finds the two dates, the estimate is
  \<open>int(22 * 3.0) = 66\<close>, and the chunk list is \<open>(61, 22)\<close>, \<open>(0, 61)\<close>. The primary
  chunk starts behind its end and behind the file, the prefix chunk ends behind the
  file, and the union of the chunks is \<open>[0, 61)\<close>, not \<open>[0, 22)\<close>. The start of the
  primary chunk is clipped at 0 only, where its end is clipped at the file size.
\<close>

theorem chunk_list_no_partition:
  "find_date_boundaries cpython (file_of_lines [''2024-01-01'', ''2024-01-02'']) 22
     = Inr (''2024-01-01'', ''2024-01-02'') \<and>
   estimate_position cpython 22 ''2024-01-04'' ''2024-01-01'' ''2024-01-02'' = 66 \<and>
   plan_chunks 22 66 = [(61, 22), (0, 61)] \<and>
   (\<Union>c \<in> set (plan_chunks 22 66). chunk_bytes c) = {0 ..< 61}"
  by (simp add: boundary_simps estimate_simps double_simps plan_chunks_def cover.simps chunk_size_def
      chunk_bytes_def)

subsection \<open>The Chunk Scanner\<close>

lemma length_take_line: "length (take_line xs) \<le> length xs"
  by (induction xs) auto

lemma take_line_nonempty: "xs \<noteq> [] \<Longrightarrow> take_line xs \<noteq> []"
  by (cases xs) auto

lemma readline_at_end: "length data \<le> pos \<Longrightarrow> readline data pos = ([], pos)"
  by (simp add: readline_def)

lemma readline_advances:
  assumes "pos < length data"
  shows "pos < snd (readline data pos)" and "snd (readline data pos) \<le> length data"
proof -
  from assms have ne: "drop pos data \<noteq> []" by simp
  from take_line_nonempty [OF ne] show "pos < snd (readline data pos)"
    by (simp add: readline_def Let_def)
  from length_take_line [of "drop pos data"] assms
  show "snd (readline data pos) \<le> length data"
    by (simp add: readline_def Let_def)
qed

lemma scan_loop_done:
  "\<not> int pos < stop \<Longrightarrow> scan_loop L data t stop pos rs = Some rs"
  by (subst scan_loop.simps) simp

lemma scan_loop_step:
  "int pos < stop \<Longrightarrow>
   scan_loop L data t stop pos rs =
     scan_loop L data t stop (snd (readline data pos))
       (scan_line t (py_strip (decode L (fst (readline data pos)))) rs)"
  by (subst scan_loop.simps) simp

lemma scan_loop_Some_cases:
  assumes "scan_loop L data t stop pos rs = Some y"
  shows "stop \<le> int (length data) \<or> stop \<le> int pos"
proof (rule scan_loop.raw_induct
    [where P = "\<lambda>L data t stop pos rs y. stop \<le> int (length data) \<or> stop \<le> int pos",
      OF _ assms])
  fix f :: "pylib \<Rightarrow> string \<Rightarrow> string \<Rightarrow> int \<Rightarrow> nat \<Rightarrow> string list \<Rightarrow> string list option"
  fix L data t stop pos rs y
  assume IH: "\<And>L data t stop pos rs y. f L data t stop pos rs = Some y \<Longrightarrow>
      stop \<le> int (length data) \<or> stop \<le> int pos"
  assume eq: "(if int pos < stop
      then f L data t stop (snd (readline data pos))
             (scan_line t (py_strip (decode L (fst (readline data pos)))) rs)
      else Some rs) = Some y"
  show "stop \<le> int (length data) \<or> stop \<le> int pos"
  proof (rule ccontr)
    assume "\<not> (stop \<le> int (length data) \<or> stop \<le> int pos)"
    then have a: "int (length data) < stop" "int pos < stop" by simp_all
    with eq have run: "f L data t stop (snd (readline data pos))
       (scan_line t (py_strip (decode L (fst (readline data pos)))) rs) = Some y"
      by simp
    have "int (snd (readline data pos)) < stop"
    proof (cases "pos < length data")
      case True
      from readline_advances(2) [OF True] a show ?thesis by linarith
    next
      case False
      then show ?thesis using a by (simp add: readline_at_end)
    qed
    with IH [OF run] a show False by linarith
  qed
qed

lemma scan_loop_diverges:
  assumes "int (length data) < stop" and "int pos < stop"
  shows "scan_loop L data t stop pos rs = None"
proof (cases "scan_loop L data t stop pos rs")
  case None
  then show ?thesis .
next
  case (Some y)
  from scan_loop_Some_cases [OF Some] assms show ?thesis by linarith
qed

lemma scan_loop_terminates:
  "stop \<le> int (length data) \<Longrightarrow> \<exists>y. scan_loop L data t stop pos rs = Some y"
proof (induction "length data - pos" arbitrary: pos rs rule: less_induct)
  case less
  show ?case
  proof (cases "int pos < stop")
    case False
    then show ?thesis by (simp add: scan_loop_done)
  next
    case True
    with less.prems have lt: "pos < length data" by linarith
    from readline_advances [OF lt]
    have "length data - snd (readline data pos) < length data - pos" by linarith
    from less.hyps [OF this less.prems]
    show ?thesis by (simp add: scan_loop_step [OF True])
  qed
qed


lemmas plan_simps = plan_chunks_def cover.simps chunk_size_def

lemmas scan_simps = find_lines_for_date_def scan_loop_done scan_line_def format_line_eq
  numeral_2_eq_2

lemmas run_simps = process_file_def boundary_simps estimate_simps double_simps plan_simps
  scan_simps

text \<open>
  Claim C3 at a file of two lines, dated \<open>2024-01-01\<close> and \<open>2024-01-02\<close> (22 bytes), and
  the target \<open>2024-01-04\<close>, which is after the maximal date: the run never returns. The
  estimate is \<open>int(22 * 3.0) = 66\<close>, the primary chunk starts at \<open>61\<close>, behind the file,
  and the prefix chunk is \<open>(0, 61)\<close>. Its scanner reaches the end of the file at
  position 22; from there \<open>readline\<close> returns \<open>b''\<close>, the position stays below 61 and the
  loop goes on (\<open>scan_loop_diverges\<close>). Where the chunk ends inside the file the loop
  does end (\<open>scan_loop_terminates\<close>).
\<close>

theorem scan_never_returns:
  "process_file cpython (file_of_lines [''2024-01-01'', ''2024-01-02'']) ''2024-01-04'' = None"
  by (simp add: run_simps scan_loop_diverges)


text \<open>
  Claim C1 at a file of two lines of 13 bytes, both of the target date: the chunks are
  \<open>(0, 13)\<close> and \<open>(13, 26)\<close>, the second line starts exactly at the start of the second
  chunk, and only the first line is found. The first scanner stops when its position
  reaches 13, before it reads the second line; the second scanner discards the line at
  its start as if it were the rest of a line begun before.
\<close>

theorem boundary_line_lost:
  "process_file cpython (file_of_lines [''2024-01-01 a'', ''2024-01-01 b'']) ''2024-01-01''
     = Some (Run True (Some ''2024-01-01 a\<newline>'') (Some 1)) \<and>
   extract_date_from_line ''2024-01-01 a'' = Inr ''2024-01-01'' \<and>
   extract_date_from_line ''2024-01-01 b'' = Inr ''2024-01-01''"
  by (simp add: run_simps scan_loop_step)

subsection \<open>The Result Aggregator\<close>

lemma write_lines_eq:
  "write_lines ls st =
     (fst st @ concat (map (\<lambda>line. line @ [CHR 0x0A]) ls), snd st + length ls)"
  by (induction ls arbitrary: st) auto

lemma write_results_eq:
  "write_results rs st =
     (fst st @ concat (map (\<lambda>line. line @ [CHR 0x0A]) (concat rs)), snd st + length (concat rs))"
  by (induction rs arbitrary: st) (auto simp: write_lines_eq)

lemma starmap_Inr:
  "starmap f xs = Some (Inr rs) \<Longrightarrow> map f xs = map (\<lambda>v. Some (Inr v)) rs"
proof (induction xs arbitrary: rs)
  case Nil
  then show ?case by simp
next
  case (Cons x xs)
  then show ?case
    by (auto simp: exn_bind_def split: option.splits sum.splits)
qed

lemma process_file_returned:
  assumes "process_file L data target_date = Some r" and "returned r"
  shows "\<exists>dates chunk_results.
           find_date_boundaries L data (int (length data)) = Inr dates \<and>
           map (\<lambda>chunk. find_lines_for_date L chunk data target_date)
             (plan_chunks (int (length data))
                (estimate_position L (int (length data)) target_date (fst dates) (snd dates)))
             = map (\<lambda>v. Some (Inr v)) chunk_results \<and>
           r = Run True
                 (Some (concat (map (\<lambda>line. line @ [CHR 0x0A]) (concat chunk_results))))
                 (Some (length (concat chunk_results)))"
  using assms
  by (auto simp: process_file_def Let_def write_results_eq
      split: if_splits sum.splits option.splits dest!: starmap_Inr)

text \<open>
  Claim C10. The chunk list is the primary chunk, then the chunks that cover the bytes
  before it, then those that cover the bytes behind it, each of the two runs in ascending
  order of offset. The two loops of the Result Aggregator write the lines of the chunk
  results in the order of the list, each with a newline, and count them: nothing is
  sorted and nothing is dropped. So the output of a run that returns \<open>True\<close> is the
  results of the scanners, in the order of the chunk list.
\<close>

theorem output_order:
  "plan_chunks file_size estimated_pos =
     (let primary_chunk_size = min (chunk_size * 2) (file_size div 2);
          primary_start = max 0 (estimated_pos - primary_chunk_size div 2);
          primary_end = min file_size (primary_start + primary_chunk_size)
      in (primary_start, primary_end) # cover 0 primary_start [] @ cover primary_end file_size []) \<and>
   sorted_wrt (\<lambda>c d. fst c < fst d) (cover a b []) \<and>
   write_results chunk_results ([], 0) =
     (concat (map (\<lambda>line. line @ [CHR 0x0A]) (concat chunk_results)),
      length (concat chunk_results)) \<and>
   (process_file L data target_date = Some r \<and> returned r \<longrightarrow>
      (\<exists>dates results.
           find_date_boundaries L data (int (length data)) = Inr dates \<and>
           map (\<lambda>chunk. find_lines_for_date L chunk data target_date)
             (plan_chunks (int (length data))
                (estimate_position L (int (length data)) target_date (fst dates) (snd dates)))
             = map (\<lambda>v. Some (Inr v)) results \<and>
           r = Run True
                 (Some (concat (map (\<lambda>line. line @ [CHR 0x0A]) (concat results))))
                 (Some (length (concat results)))))"
  using plan_chunks_eq [of file_size estimated_pos] cover_ascending [of a b]
    write_results_eq [of chunk_results "([], 0)"] process_file_returned [of L data target_date r]
  by simp

theorem output_order_witness:
  "process_file cpython
     (file_of_lines [''2024-01-01 a'', ''2024-01-02 b'', ''2024-01-02 c'', ''2024-01-02 d'',
        ''2024-01-03 e''])
     ''2024-01-02''
     = Some (Run True
         (Some ''2024-01-02 c\<newline>2024-01-02 d\<newline>2024-01-02 b\<newline>'') (Some 3)) \<and>
   plan_chunks 65 32 = [(16, 48), (0, 16), (48, 65)] \<and>
   (\<exists>results.
      map (\<lambda>chunk. find_lines_for_date cpython chunk
             (file_of_lines [''2024-01-01 a'', ''2024-01-02 b'', ''2024-01-02 c'',
                ''2024-01-02 d'', ''2024-01-03 e''])
             ''2024-01-02'')
        [(16, 48), (0, 16), (48, 65)]
        = map (\<lambda>v. Some (Inr v)) results \<and>
      ''2024-01-02 c\<newline>2024-01-02 d\<newline>2024-01-02 b\<newline>''
        = concat (map (\<lambda>line. line @ [CHR 0x0A]) (concat results)))"
proof -
  let ?F = "file_of_lines [''2024-01-01 a'', ''2024-01-02 b'', ''2024-01-02 c'',
    ''2024-01-02 d'', ''2024-01-03 e'']"
  let ?r = "Run True
    (Some ''2024-01-02 c\<newline>2024-01-02 d\<newline>2024-01-02 b\<newline>'') (Some 3)"
  have dates: "find_date_boundaries cpython ?F 65 = Inr (''2024-01-01'', ''2024-01-03'')"
    by (simp add: boundary_simps)
  have est: "estimate_position cpython 65 ''2024-01-02'' ''2024-01-01'' ''2024-01-03'' = 32"
    by (simp add: estimate_simps double_simps)
  have plan: "plan_chunks 65 32 = [(16, 48), (0, 16), (48, 65)]"
    by (simp add: plan_simps Let_def)
  have len: "int (length ?F) = 65" by (simp add: file_of_lines_def)
  have ne: "?F \<noteq> []" by (simp add: file_of_lines_def)
  have scans: "find_lines_for_date cpython (16, 48) ?F ''2024-01-02''
        = Some (Inr [''2024-01-02 c'', ''2024-01-02 d''])"
    "find_lines_for_date cpython (0, 16) ?F ''2024-01-02'' = Some (Inr [''2024-01-02 b''])"
    "find_lines_for_date cpython (48, 65) ?F ''2024-01-02'' = Some (Inr [])"
    by (simp_all add: scan_simps scan_loop_step readline_def file_of_lines_def py_strip_def
        isspace_def cpython_def decode_ascii_def extract_date_eq exn_bind_def Let_def)
  have run: "process_file cpython ?F ''2024-01-02'' = Some ?r"
    unfolding process_file_def Let_def len
    by (simp add: ne dates est plan scans exn_bind_def)
  have "process_file cpython ?F ''2024-01-02'' = Some ?r \<and> returned ?r"
    using run by simp
  with output_order [of 65 32 0 0 "[]" cpython ?F "''2024-01-02''" ?r]
  have "\<exists>dates results.
      find_date_boundaries cpython ?F (int (length ?F)) = Inr dates \<and>
      map (\<lambda>chunk. find_lines_for_date cpython chunk ?F ''2024-01-02'')
        (plan_chunks (int (length ?F))
           (estimate_position cpython (int (length ?F)) ''2024-01-02'' (fst dates) (snd dates)))
        = map (\<lambda>v. Some (Inr v)) results \<and>
      ?r = Run True (Some (concat (map (\<lambda>line. line @ [CHR 0x0A]) (concat results))))
             (Some (length (concat results)))"
    by blast
  then obtain dates results where
    d: "find_date_boundaries cpython ?F (int (length ?F)) = Inr dates"
    and m: "map (\<lambda>chunk. find_lines_for_date cpython chunk ?F ''2024-01-02'')
        (plan_chunks (int (length ?F))
           (estimate_position cpython (int (length ?F)) ''2024-01-02'' (fst dates) (snd dates)))
        = map (\<lambda>v. Some (Inr v)) results"
    and r: "?r = Run True (Some (concat (map (\<lambda>line. line @ [CHR 0x0A]) (concat results))))
             (Some (length (concat results)))"
    by blast
  from d have "dates = (''2024-01-01'', ''2024-01-03'')"
    unfolding len dates by simp
  with m have m': "map (\<lambda>chunk. find_lines_for_date cpython chunk ?F ''2024-01-02'')
        [(16, 48), (0, 16), (48, 65)] = map (\<lambda>v. Some (Inr v)) results"
    unfolding len by (simp only: fst_conv snd_conv est plan)
  from r have "''2024-01-02 c\<newline>2024-01-02 d\<newline>2024-01-02 b\<newline>''
        = concat (map (\<lambda>line. line @ [CHR 0x0A]) (concat results))"
    by simp
  with m' have "\<exists>results.
      map (\<lambda>chunk. find_lines_for_date cpython chunk ?F ''2024-01-02'')
        [(16, 48), (0, 16), (48, 65)] = map (\<lambda>v. Some (Inr v)) results \<and>
      ''2024-01-02 c\<newline>2024-01-02 d\<newline>2024-01-02 b\<newline>''
        = concat (map (\<lambda>line. line @ [CHR 0x0A]) (concat results))"
    by blast
  with run plan show ?thesis by blast
qed

subsection \<open>The empty file\<close>

lemma to_double_0: "to_double 0 = Finite 0"
  by (simp add: to_double_def)

lemma estimate_position_empty: "estimate_position L 0 target_date min_date max_date = 0"
  by (auto simp: estimate_position_def estimate_try_def py_strptime_def exn_bind_def
      truediv_def float_of_int_def fmul_def py_int_def trunc_def to_double_0
      split: option.splits pyfloat.splits sum.splits)

text \<open>
  Claim C4, as stated, fails: on an empty file \<open>process_file\<close> returns \<open>False\<close> and never
  opens the output file. \<open>mmap.mmap\<close> raises ValueError on an empty file, before the
  Boundary Detector is called, and \<open>except Exception\<close> turns that into the return value.
\<close>

theorem empty_file_counterexample:
  "process_file cpython [] ''2024-01-01'' = Some (Run False None None)"
  by (simp add: process_file_def)

text \<open>
  Claim C4, amended. On an empty file the run fails without an exception leaving
  \<open>process_file\<close>: it returns \<open>False\<close>, creates no output file and reports no count. The
  components, were they reached, would do what the claim says: on empty contents the
  Boundary Detector returns \<open>0000-00-00\<close> and \<open>9999-99-99\<close> (the decoder maps \<open>b''\<close> to
  \<open>''\<close>), the Position Estimator returns 0 for a file size of 0 whatever the dates, and
  the chunk list for size 0 and offset 0 is the single chunk \<open>(0, 0)\<close>.
\<close>

theorem empty_file_fails:
  "process_file L [] target_date = Some (Run False None None) \<and>
   (decode L [] = [] \<longrightarrow>
      find_date_boundaries L [] 0 = Inr (''0000-00-00'', ''9999-99-99'')) \<and>
   estimate_position L 0 target_date min_date max_date = 0 \<and>
   plan_chunks 0 0 = [(0, 0)]"
  by (simp add: process_file_def estimate_position_empty plan_small find_date_boundaries_def
      readline_def py_strip_def extract_date_eq exn_bind_def tail_scan_unfold)

theorem empty_file_fails_witness:
  "process_file cpython [] ''2024-01-01'' = Some (Run False None None) \<and>
   find_date_boundaries cpython [] 0 = Inr (''0000-00-00'', ''9999-99-99'') \<and>
   estimate_position cpython 0 ''2024-01-01'' ''0000-00-00'' ''9999-99-99'' = 0"
  using empty_file_fails [of cpython "''2024-01-01''" "''0000-00-00''" "''9999-99-99''"]
  by (simp add: cpython_def decode_ascii_def)

end
